theory Spec2Isabelle
  imports Main "HOL-Library.AList"
begin

section \<open>Go values used by the init-context file reader\<close>

type_synonym path = string
type_synonym bytes = string

text \<open>
  Go errors. \<open>ErrPathNeverRequestedBefore\<close> is the sentinel of package fsext,
  \<open>ErrMsg m\<close> is an error made by \<open>fmt.Errorf\<close> without a wrapping verb (its
  message is \<open>m\<close>), and \<open>ErrWrap m e\<close> is an error with message \<open>m\<close> whose
  \<open>Unwrap\<close> gives \<open>e\<close> (such as a path error around a cause).
\<close>

datatype go_error =
    ErrPathNeverRequestedBefore
  | ErrMsg string
  | ErrWrap string go_error

text \<open>\<open>errors.Is\<close>: the error itself or any error of its unwrap chain is the target.\<close>

fun errors_Is :: "go_error \<Rightarrow> go_error \<Rightarrow> bool" where
  "errors_Is (ErrWrap m e) t = (ErrWrap m e = t \<or> errors_Is e t)"
| "errors_Is e t = (e = t)"

text \<open>
  The interface \<open>fsext.Fs\<close> as \<open>readFile\<close> uses it: the two package functions
  \<open>fsext.IsDir\<close> and \<open>fsext.ReadFile\<close>, each returning Go's pair of a value and an
  error (\<open>None\<close> is \<open>nil\<close>) together with the filesystem after the call, since a
  cache-on-read filesystem changes when it is read.
\<close>

record 's Fs =
  fs_IsDir :: "'s \<Rightarrow> path \<Rightarrow> (bool \<times> go_error option) \<times> 's"
  fs_ReadFile :: "'s \<Rightarrow> path \<Rightarrow> (bytes option \<times> go_error option) \<times> 's"

definition notOpenedMsg :: string where
  "notOpenedMsg =
     ''open() can't be used with files that weren't previously opened during initialization (__VU==0), path: ''"

definition isDirMsg :: string where
  "isDirMsg = ''open() can't be used with directories, path: ''"

text \<open>
  The deferred function of \<open>readFile\<close>: it runs on every return path and rewrites the
  named result \<open>err\<close> when that is (or wraps) the sentinel. The argument \<open>q\<close> is
  the formatting of the verb \<open>%q\<close> (Go's quoting of a string), which is library code.
\<close>

definition readFile_deferred :: "(string \<Rightarrow> string) \<Rightarrow> path \<Rightarrow> go_error option \<Rightarrow> go_error option" where
  "readFile_deferred q filename err =
     (case err of
        None \<Rightarrow> None
      | Some e \<Rightarrow>
          if errors_Is e ErrPathNeverRequestedBefore
          then Some (ErrMsg (notOpenedMsg @ q filename))
          else Some e)"

text \<open>\<open>readFile\<close> of the init context (the implementation behind \<open>open()\<close>).\<close>

definition readFile ::
  "(string \<Rightarrow> string) \<Rightarrow> 's Fs \<Rightarrow> 's \<Rightarrow> path \<Rightarrow> (bytes option \<times> go_error option) \<times> 's" where
  "readFile q F s filename =
     (case fs_IsDir F s filename of
        ((isDir, Some e), s1) \<Rightarrow> ((None, readFile_deferred q filename (Some e)), s1)
      | ((isDir, None), s1) \<Rightarrow>
          if isDir
          then ((None, readFile_deferred q filename (Some (ErrMsg (isDirMsg @ q filename)))), s1)
          else (case fs_ReadFile F s1 filename of
                  ((data, err), s2) \<Rightarrow> ((data, readFile_deferred q filename err), s2)))"

section \<open>Path normalisation and anonymisation\<close>

text \<open>
  The function \<open>NormalizeAndAnonymizePath\<close> is called by the archive tests of
  package lib; its body is not among the sources at hand, so the following
  definitions are written from section 4.A of the specification, one definition
  per step, and are checked against the table of \<open>TestNormalizeAndAnonymizePath\<close>.
\<close>

definition bslash :: char where
  "bslash = CHR 0x5C"

definition is_sep :: "char \<Rightarrow> bool" where
  "is_sep c = (c = CHR ''/'' \<or> c = bslash)"

definition upper_letters :: string where
  "upper_letters = ''ABCDEFGHIJKLMNOPQRSTUVWXYZ''"

definition lower_letters :: string where
  "lower_letters = ''abcdefghijklmnopqrstuvwxyz''"

definition is_letter :: "char \<Rightarrow> bool" where
  "is_letter c = (c \<in> set (upper_letters @ lower_letters))"

definition to_lower :: "char \<Rightarrow> char" where
  "to_lower c = (case map_of (zip upper_letters lower_letters) c of Some l \<Rightarrow> l | None \<Rightarrow> c)"

text \<open>
  Modelled from the spec: step 2 of \<open>NormalizeAndAnonymizePath\<close> (body missing).
  A path that begins with two backslashes is a UNC path; its share root collapses
  to the root \<open>/\<close>. The share name stays as the first segment and is the one that
  step 6 replaces, as the specification's edge case and the test table require
  (the share \<open>MYSHARED\<close> becomes \<open>nobody\<close> and both \<open>dir\<close> segments remain).
\<close>

definition begins_unc :: "string \<Rightarrow> bool" where
  "begins_unc s = (take 2 s = [bslash, bslash])"

definition unc_collapse :: "string \<Rightarrow> string" where
  "unc_collapse s = (if begins_unc s then CHR ''/'' # drop 2 s else s)"

text \<open>
  Modelled from the spec: step 3 of \<open>NormalizeAndAnonymizePath\<close> (body missing).
  A letter, a colon and a separator at the start become \<open>/<LETTER>/\<close>. The same
  prefix is recognised after one leading separator: the round-trip test
  \<open>Anonymized\<close> writes the entry path \<open>/C:/Users/Administrator\<close> and expects
  \<open>/C/Users/nobody\<close>.
\<close>

fun drive_rewrite :: "string \<Rightarrow> string" where
  "drive_rewrite (a # b # c # d # rest) =
     (if is_letter a \<and> b = CHR '':'' \<and> is_sep c then CHR ''/'' # a # CHR ''/'' # d # rest
      else if is_sep a \<and> is_letter b \<and> c = CHR '':'' \<and> is_sep d then CHR ''/'' # b # CHR ''/'' # rest
      else a # b # c # d # rest)"
| "drive_rewrite [a, b, c] =
     (if is_letter a \<and> b = CHR '':'' \<and> is_sep c then [CHR ''/'', a, CHR ''/''] else [a, b, c])"
| "drive_rewrite s = s"

text \<open>Modelled from the spec: step 4 (body missing), every backslash becomes a slash.\<close>

definition backslash_to_slash :: "string \<Rightarrow> string" where
  "backslash_to_slash s = map (\<lambda>c. if c = bslash then CHR ''/'' else c) s"

text \<open>Splitting a path at every slash, and joining segments with slashes.\<close>

fun split_slash :: "string \<Rightarrow> string list" where
  "split_slash [] = [[]]"
| "split_slash (c # cs) =
     (if c = CHR ''/'' then [] # split_slash cs
      else (case split_slash cs of [] \<Rightarrow> [[c]] | s # ss \<Rightarrow> (c # s) # ss))"

fun join_slash :: "string list \<Rightarrow> string" where
  "join_slash [] = []"
| "join_slash [s] = s"
| "join_slash (s # t # ss) = s @ CHR ''/'' # join_slash (t # ss)"

text \<open>
  Modelled from the spec: step 5 of \<open>NormalizeAndAnonymizePath\<close> (body missing),
  the lexical cleaning. Empty segments (runs of slashes) and \<open>.\<close> are dropped; \<open>..\<close>
  removes the segment before it, is dropped at the root, and is kept at the start
  of a relative path, where nothing is left to remove. \<open>acc\<close> is the stack of the
  segments kept so far, the last one first.
\<close>

fun resolve_dots :: "bool \<Rightarrow> string list \<Rightarrow> string list \<Rightarrow> string list" where
  "resolve_dots rooted acc [] = rev acc"
| "resolve_dots rooted acc (s # ss) =
     (if s = [] \<or> s = ''.'' then resolve_dots rooted acc ss
      else if s = ''..'' then
        (case acc of
           [] \<Rightarrow> if rooted then resolve_dots rooted [] ss else resolve_dots rooted [''..''] ss
         | a # acc' \<Rightarrow> if a = ''..'' then resolve_dots rooted (''..'' # a # acc') ss
                       else resolve_dots rooted acc' ss)
      else resolve_dots rooted (s # acc) ss)"

definition is_rooted :: "string \<Rightarrow> bool" where
  "is_rooted s = (take 1 s = ''/'')"

definition lexical_clean :: "string \<Rightarrow> string" where
  "lexical_clean s =
     (if is_rooted s then CHR ''/'' # join_slash (resolve_dots True [] (split_slash s))
      else join_slash (resolve_dots False [] (split_slash s)))"

text \<open>
  Modelled from the spec: step 6 of \<open>NormalizeAndAnonymizePath\<close> (body missing).
  The home-like parents are \<open>home\<close>, \<open>Users\<close> and \<open>Documents and Settings\<close> in any
  mix of upper and lower case, and the empty root segment of a UNC path. The
  segment after the first such parent becomes \<open>nobody\<close>; nothing else changes.
\<close>

definition home_like :: "string \<Rightarrow> bool" where
  "home_like seg = (map to_lower seg \<in> {''home'', ''users'', ''documents and settings''})"

definition is_parent :: "bool \<Rightarrow> string \<Rightarrow> bool" where
  "is_parent unc seg = (home_like seg \<or> (unc \<and> seg = []))"

fun anonymize_segs :: "bool \<Rightarrow> string list \<Rightarrow> string list" where
  "anonymize_segs unc (p # u # rest) =
     (if is_parent unc p \<and> u \<noteq> [] then p # ''nobody'' # rest
      else p # anonymize_segs unc (u # rest))"
| "anonymize_segs unc segs = segs"

definition anonymize :: "bool \<Rightarrow> string \<Rightarrow> string" where
  "anonymize unc s = join_slash (anonymize_segs unc (split_slash s))"

text \<open>Modelled from the spec: step 7 (body missing), the result begins with a slash.\<close>

definition ensure_root :: "string \<Rightarrow> string" where
  "ensure_root s = (if is_rooted s then s else CHR ''/'' # s)"

text \<open>
  Modelled from the spec: \<open>NormalizeAndAnonymizePath\<close> (body missing), steps 1 to 7
  in the order of section 4.A.
\<close>

definition NormalizeAndAnonymizePath :: "string \<Rightarrow> string" where
  "NormalizeAndAnonymizePath p =
     ensure_root (anonymize (begins_unc p)
       (lexical_clean (backslash_to_slash (drive_rewrite (unc_collapse p)))))"

text \<open>
  A segment that the cleaning keeps as it is: not empty, not a dot segment, and
  without a separator.
\<close>

definition plain_segment :: "string \<Rightarrow> bool" where
  "plain_segment u =
     (u \<noteq> [] \<and> u \<noteq> ''.'' \<and> u \<noteq> ''..'' \<and> CHR ''/'' \<notin> set u \<and> bslash \<notin> set u)"

text \<open>The absolute path made of the given segments, each after a slash.\<close>

definition abs_path :: "string list \<Rightarrow> path" where
  "abs_path segs = concat (map ((#) CHR ''/'') segs)"

text \<open>
  The host operating system, as \<open>runtime.GOOS\<close> tells the test. Modelled from the
  comment in \<open>TestNormalizeAndAnonymizePath\<close>: the function cleans its argument with
  the host's \<open>filepath.Clean\<close>, which on Windows replaces every \<open>/\<close> with the
  host's separator, the backslash, before the rewriting steps see the path.
\<close>

datatype goos = Windows | Linux

definition host_separators :: "goos \<Rightarrow> string \<Rightarrow> string" where
  "host_separators os p =
     (case os of Windows \<Rightarrow> map (\<lambda>c. if c = CHR ''/'' then bslash else c) p | Linux \<Rightarrow> p)"

definition NormalizeAndAnonymizePath_on :: "goos \<Rightarrow> string \<Rightarrow> string" where
  "NormalizeAndAnonymizePath_on os p = NormalizeAndAnonymizePath (host_separators os p)"

section \<open>Virtual filesystems\<close>

text \<open>
  Package fsext is not among the sources at hand; the tests and \<open>readFile\<close> use it
  through \<open>NewInMemoryFS\<close>, \<open>NewCacheOnReadFs\<close>, \<open>ReadFile\<close>, \<open>WriteFile\<close> and
  \<open>AllowOnlyCached\<close>. The filesystems are written from sections 4.B, 4.D and 9 of
  the specification. A filesystem stores regular files under the paths it is
  given; the normalisation of paths is the archive writer's (section 2, component
  G), which is why the round-trip tests can fill a filesystem with
  \<open>/home/myname/a.js\<close> and find \<open>/home/nobody/a.js\<close> after reading the archive.
\<close>

type_synonym files = "(path \<times> bytes) list"

text \<open>
  Modelled from the spec: the filesystem variants of package fsext (missing).
  \<open>InMemory fs\<close> is the authoritative in-memory filesystem. \<open>Writable base cache
  observed\<close> is a cache-on-read filesystem before sealing, \<open>SealedCached cache
  observed\<close> the same after sealing (section 9, a one-way transition).
\<close>

datatype vfs =
    InMemory files
  | Writable files files "path list"
  | SealedCached files "path list"

definition ErrNotExist :: go_error where
  "ErrNotExist = ErrMsg ''file does not exist''"

text \<open>
  Modelled from the spec: \<open>ReadFile\<close> of a filesystem (missing), section 4.B. Before
  sealing, a read is served from the cache when the cache has the path and from
  the base otherwise, which then fills the cache; each successful read records
  the path as observed. After sealing only the cache is consulted and any other
  path fails with the sentinel.
\<close>

fun vfs_read :: "vfs \<Rightarrow> path \<Rightarrow> (bytes option \<times> go_error option) \<times> vfs" where
  "vfs_read (InMemory fs) p =
     (case map_of fs p of
        Some b \<Rightarrow> ((Some b, None), InMemory fs)
      | None \<Rightarrow> ((None, Some ErrNotExist), InMemory fs))"
| "vfs_read (Writable base cache observed) p =
     (case map_of cache p of
        Some b \<Rightarrow> ((Some b, None), Writable base cache (List.insert p observed))
      | None \<Rightarrow>
          (case map_of base p of
             Some b \<Rightarrow> ((Some b, None), Writable base (AList.update p b cache) (List.insert p observed))
           | None \<Rightarrow> ((None, Some ErrNotExist), Writable base cache observed)))"
| "vfs_read (SealedCached cache observed) p =
     (case map_of cache p of
        Some b \<Rightarrow> ((Some b, None), SealedCached cache observed)
      | None \<Rightarrow> ((None, Some ErrPathNeverRequestedBefore), SealedCached cache observed))"

text \<open>Modelled from the spec: \<open>WriteFile\<close> (missing); writes go to the cache only.\<close>

fun vfs_write :: "vfs \<Rightarrow> path \<Rightarrow> bytes \<Rightarrow> vfs" where
  "vfs_write (InMemory fs) p b = InMemory (AList.update p b fs)"
| "vfs_write (Writable base cache observed) p b = Writable base (AList.update p b cache) observed"
| "vfs_write (SealedCached cache observed) p b = SealedCached (AList.update p b cache) observed"

text \<open>
  Modelled from the spec: \<open>AllowOnlyCached\<close> (missing). \<open>allowOnlyOpenedFiles\<close> of
  the init context calls it on a filesystem that has it and leaves any other
  filesystem alone.
\<close>

fun sealOnlyCached :: "vfs \<Rightarrow> vfs" where
  "sealOnlyCached (Writable base cache observed) = SealedCached cache observed"
| "sealOnlyCached fs = fs"

text \<open>
  The regular files an archive writer finds when it walks a filesystem: of a
  cache-on-read filesystem, those of the cache (\<open>TestUsingCacheFromCacheOnReadFs\<close>:
  the base file \<open>/wrong\<close> is not in the archive).
\<close>

fun vfs_files :: "vfs \<Rightarrow> files" where
  "vfs_files (InMemory fs) = fs"
| "vfs_files (Writable base cache observed) = cache"
| "vfs_files (SealedCached cache observed) = cache"




section \<open>The archive and its container\<close>

text \<open>
  The type \<open>Archive\<close> with \<open>Write\<close>, \<open>ReadArchive\<close> and \<open>json\<close> is used by the tests
  of package lib; the file that defines them is not among the sources at hand.
  The fields are those the tests set and section 3 of the specification lists.
  \<open>Options\<close> is the options document as JSON text, which the archive passes on.
\<close>

record url =
  Scheme :: string
  Path :: path

record archive =
  ArcType :: string
  K6Version :: string
  Filename :: string
  FilenameURL :: url
  Pwd :: string
  PwdURL :: url
  Options :: string
  Data :: "bytes option"
  Filesystems :: "(string \<times> vfs) list"

text \<open>The container: the entries of the stream in order, each a name and its bytes.\<close>

type_synonym container = "(string \<times> bytes) list"

definition dquote :: char where
  "dquote = CHR 0x22"

definition hex_digits :: string where
  "hex_digits = ''0123456789abcdef''"

text \<open>
  Modelled from the spec: the JSON encoding of a string in \<open>metadata.json\<close>
  (\<open>Archive.json\<close>, missing), sections 4.E and 6. The double quote, the backslash
  and the control characters are escaped, as JSON requires; every other byte,
  the HTML-significant \<open><\<close>, \<open>>\<close> and \<open>&\<close> included, is written as it is.
\<close>

definition json_escape_char :: "char \<Rightarrow> string" where
  "json_escape_char c =
     (if c = dquote then [bslash, dquote]
      else if c = bslash then [bslash, bslash]
      else if (of_char c :: nat) < 32
        then [bslash] @ ''u00'' @ [hex_digits ! ((of_char c :: nat) div 16), hex_digits ! ((of_char c :: nat) mod 16)]
      else [c])"

definition json_string :: "string \<Rightarrow> string" where
  "json_string s = [dquote] @ concat (map json_escape_char s) @ [dquote]"

text \<open>The characters that the encoding of a string leaves as they are.\<close>

definition json_plain :: "char \<Rightarrow> bool" where
  "json_plain c = (c \<noteq> dquote \<and> c \<noteq> bslash \<and> 32 \<le> (of_char c :: nat))"

definition base64_alphabet :: string where
  "base64_alphabet = ''ABCDEFGHIJKLMNOPQRSTUVWXYZabcdefghijklmnopqrstuvwxyz0123456789+/''"

text \<open>Modelled from the spec: the base64 text of the entry script's bytes (section 6).\<close>

fun base64 :: "bytes \<Rightarrow> string" where
  "base64 (a # b # c # rest) =
     (let x = (of_char a :: nat); y = (of_char b :: nat); z = (of_char c :: nat) in
        [base64_alphabet ! (x div 4), base64_alphabet ! ((x mod 4) * 16 + y div 16),
         base64_alphabet ! ((y mod 16) * 4 + z div 64), base64_alphabet ! (z mod 64)] @ base64 rest)"
| "base64 [a, b] =
     (let x = (of_char a :: nat); y = (of_char b :: nat) in
        [base64_alphabet ! (x div 4), base64_alphabet ! ((x mod 4) * 16 + y div 16),
         base64_alphabet ! ((y mod 16) * 4), CHR ''=''])"
| "base64 [a] =
     (let x = (of_char a :: nat) in
        [base64_alphabet ! (x div 4), base64_alphabet ! ((x mod 4) * 16), CHR ''='', CHR ''=''])"
| "base64 [] = []"

text \<open>
  Modelled from the spec: the string form of a URL, which the legacy fields
  \<open>filename\<close> and \<open>pwd\<close> hold (section 3).
\<close>

definition url_String :: "url \<Rightarrow> string" where
  "url_String u = Scheme u @ ''://'' @ Path u"

definition json_field :: "string \<Rightarrow> string \<Rightarrow> string" where
  "json_field k v = json_string k @ '':'' @ v"

text \<open>
  Modelled from the spec: \<open>Archive.json\<close> (missing), the bytes of \<open>metadata.json\<close>
  with the keys of the table in section 6, in that order.
\<close>

definition archive_json :: "archive \<Rightarrow> bytes" where
  "archive_json a =
     ''{'' @ json_field ''type'' (json_string (ArcType a))
     @ '','' @ json_field ''k6_version'' (json_string (K6Version a))
     @ '','' @ json_field ''filename'' (json_string (Filename a))
     @ '','' @ json_field ''filename_url'' (json_string (url_String (FilenameURL a)))
     @ '','' @ json_field ''pwd'' (json_string (Pwd a))
     @ '','' @ json_field ''pwd_url'' (json_string (url_String (PwdURL a)))
     @ '','' @ json_field ''options'' (Options a)
     @ '','' @ json_field ''data'' (case Data a of None \<Rightarrow> ''null'' | Some d \<Rightarrow> json_string (base64 d))
     @ ''}''"

text \<open>\<open>s\<close> contains \<open>p\<close> as a run of consecutive characters (\<open>strings.Contains\<close>).\<close>

fun starts_with :: "string \<Rightarrow> string \<Rightarrow> bool" where
  "starts_with s [] = True"
| "starts_with [] (c # p) = False"
| "starts_with (d # s) (c # p) = (d = c \<and> starts_with s p)"

fun contains_str :: "string \<Rightarrow> string \<Rightarrow> bool" where
  "contains_str [] p = (p = [])"
| "contains_str (c # s) p = (starts_with (c # s) p \<or> contains_str s p)"

definition normalizeAndAnonymizeURL :: "url \<Rightarrow> url" where
  "normalizeAndAnonymizeURL u = u\<lparr>Path := NormalizeAndAnonymizePath (Path u)\<rparr>"

text \<open>
  Modelled from the spec: step 3 of the writer (\<open>Archive.Write\<close>, missing). Every
  regular file of a filesystem is emitted under its normalised path, in an entry
  named by the scheme followed by that path.
\<close>

definition emitted_files :: "files \<Rightarrow> files" where
  "emitted_files fs = map (\<lambda>(p, b). (NormalizeAndAnonymizePath p, b)) fs"

definition fs_entries :: "string \<Rightarrow> vfs \<Rightarrow> container" where
  "fs_entries s fs = map (\<lambda>(p, b). (s @ p, b)) (emitted_files (vfs_files fs))"

text \<open>
  Modelled from the spec: the message of the write error for a main script that
  is not in the filesystem (section 6 gives this part of it).
\<close>

definition mainScriptMissingMsg :: string where
  "mainScriptMissingMsg = ''the main script wasn't present in the cached filesystem''"

text \<open>
  Modelled from the spec: step 1 of the writer (\<open>Archive.Write\<close>, missing), the
  invariant of section 3. When the data is present and the entry URL has the
  scheme \<open>file\<close>, the \<open>file\<close> filesystem holds, at the normalised entry path, a file
  whose contents are the data.
\<close>

definition file_fs_has_data :: "archive \<Rightarrow> bytes \<Rightarrow> bool" where
  "file_fs_has_data a d =
     (case map_of (Filesystems a) ''file'' of
        None \<Rightarrow> False
      | Some fs \<Rightarrow>
          (NormalizeAndAnonymizePath (Path (FilenameURL a)), d) \<in> set (emitted_files (vfs_files fs)))"


definition data_in_fs :: "archive \<Rightarrow> bool" where
  "data_in_fs a =
     (case Data a of
        None \<Rightarrow> True
      | Some d \<Rightarrow> if Scheme (FilenameURL a) = ''file'' then file_fs_has_data a d else True)"

text \<open>
  Modelled from the spec: steps 2 and 4 of the writer (missing). The metadata that
  is serialised carries the normalised URLs and their legacy string forms.
\<close>

definition written_metadata :: "archive \<Rightarrow> archive" where
  "written_metadata a =
     a\<lparr>Filename := url_String (normalizeAndAnonymizeURL (FilenameURL a)),
       FilenameURL := normalizeAndAnonymizeURL (FilenameURL a),
       Pwd := url_String (normalizeAndAnonymizeURL (PwdURL a)),
       PwdURL := normalizeAndAnonymizeURL (PwdURL a),
       Filesystems := []\<rparr>"

text \<open>
  Modelled from the spec: \<open>Archive.Write\<close> (missing), section 4.F, into a buffer
  that takes every write. The result is the error, with nothing written, or the
  entries of the stream.
\<close>

definition Write :: "archive \<Rightarrow> go_error + container" where
  "Write a =
     (if \<not> data_in_fs a then Inl (ErrMsg mainScriptMissingMsg)
      else Inr (concat (map (\<lambda>(s, fs). fs_entries s fs) (Filesystems a))
                @ [(''metadata.json'', archive_json (written_metadata a))]))"








section \<open>Notions for the round trip\<close>








section \<open>Archives of the tests\<close>

text \<open>
  The archive of \<open>TestUsingCacheFromCacheOnReadFs\<close>: the base filesystem has
  \<open>/wrong\<close>, the cache has \<open>/correct\<close>, and the entry is \<open>/correct\<close>.
\<close>

definition sealing_arc :: archive where
  "sealing_arc =
     \<lparr>ArcType = ''js'', K6Version = ''0.0.0'', Filename = [],
      FilenameURL = \<lparr>Scheme = ''file'', Path = ''/correct''\<rparr>,
      Pwd = [], PwdURL = \<lparr>Scheme = ''file'', Path = ''/''\<rparr>,
      Options = ''{}'', Data = Some ''test'',
      Filesystems = [(''file'', Writable [(''/wrong'', ''ooops'')] [(''/correct'', ''test'')] [])]\<rparr>"



text \<open>The archive of \<open>TestArchiveJSONEscape\<close>: every field empty but the file name.\<close>

definition escape_arc :: "string \<Rightarrow> archive" where
  "escape_arc name =
     \<lparr>ArcType = [], K6Version = [], Filename = name,
      FilenameURL = \<lparr>Scheme = [], Path = []\<rparr>,
      Pwd = [], PwdURL = \<lparr>Scheme = [], Path = []\<rparr>,
      Options = ''{}'', Data = None, Filesystems = []\<rparr>"







section \<open>Properties of the file reader\<close>

lemma errors_Is_ErrMsg: "errors_Is (ErrMsg m) ErrPathNeverRequestedBefore = False"
  by simp

text \<open>
  Claim C10. For every path that names a directory in the filesystem, \<open>readFile\<close>
  returns no data and the error whose message is
  \<open>open() can't be used with directories, path: \<close> followed by the quoted path; the
  contents of the directory are never read (the filesystem is the one left by the
  directory test).
\<close>

theorem readFile_directory:
  assumes "fs_IsDir F s filename = ((True, None), s1)"
  shows "readFile q F s filename =
           ((None, Some (ErrMsg (''open() can't be used with directories, path: '' @ q filename))), s1)"
  using assms by (simp add: readFile_def readFile_deferred_def isDirMsg_def)

theorem readFile_directory_witness:
  "fs_IsDir \<lparr>fs_IsDir = (\<lambda>s p. ((True, None), s)), fs_ReadFile = (\<lambda>s p. ((Some ''x'', None), s))\<rparr> (0::nat) ''/dir''
     = ((True, None), 0)
   \<and> readFile (\<lambda>p. CHR 0x22 # p @ [CHR 0x22])
        \<lparr>fs_IsDir = (\<lambda>s p. ((True, None), s)), fs_ReadFile = (\<lambda>s p. ((Some ''x'', None), s))\<rparr> (0::nat) ''/dir''
     = ((None, Some (ErrMsg (''open() can't be used with directories, path: '' @ [CHR 0x22] @ ''/dir'' @ [CHR 0x22]))), 0)"
  using readFile_directory
    [of "\<lparr>fs_IsDir = (\<lambda>s p. ((True, None), s)), fs_ReadFile = (\<lambda>s p. ((Some ''x'', None), s))\<rparr>"
        "0::nat" "''/dir''" "0::nat" "\<lambda>p. CHR 0x22 # p @ [CHR 0x22]"]
  by simp

section \<open>Properties of the path normalisation\<close>

lemma split_slash_nonempty: "split_slash s \<noteq> []"
  by (induction s) (auto split: list.splits)

lemma split_slash_plain: "CHR ''/'' \<notin> set s \<Longrightarrow> split_slash s = [s]"
  by (induction s) auto

lemma split_slash_append:
  "CHR ''/'' \<notin> set s \<Longrightarrow> split_slash (s @ CHR ''/'' # t) = s # split_slash t"
  by (induction s) auto










lemma backslash_to_slash_id: "bslash \<notin> set s \<Longrightarrow> backslash_to_slash s = s"
  by (induction s) (auto simp: backslash_to_slash_def)


text \<open>
  The table of \<open>TestNormalizeAndAnonymizePath\<close>, with the entry for hosts other
  than Windows: each path has the expected result, and the result is its own
  normalisation, as the test asserts.
\<close>

lemma normalize_test_table:
  "NormalizeAndAnonymizePath (''/tmp'') = ''/tmp''"
  "NormalizeAndAnonymizePath ''/tmp'' = ''/tmp''"
  "NormalizeAndAnonymizePath (''/tmp/myfile.txt'') = ''/tmp/myfile.txt''"
  "NormalizeAndAnonymizePath ''/tmp/myfile.txt'' = ''/tmp/myfile.txt''"
  "NormalizeAndAnonymizePath (''/home/myname'') = ''/home/nobody''"
  "NormalizeAndAnonymizePath ''/home/nobody'' = ''/home/nobody''"
  "NormalizeAndAnonymizePath (''/home/myname/foo/bar/myfile.txt'') = ''/home/nobody/foo/bar/myfile.txt''"
  "NormalizeAndAnonymizePath ''/home/nobody/foo/bar/myfile.txt'' = ''/home/nobody/foo/bar/myfile.txt''"
  "NormalizeAndAnonymizePath (''/Users/myname/myfile.txt'') = ''/Users/nobody/myfile.txt''"
  "NormalizeAndAnonymizePath ''/Users/nobody/myfile.txt'' = ''/Users/nobody/myfile.txt''"
  "NormalizeAndAnonymizePath (''/Documents and Settings/myname/myfile.txt'') = ''/Documents and Settings/nobody/myfile.txt''"
  "NormalizeAndAnonymizePath ''/Documents and Settings/nobody/myfile.txt'' = ''/Documents and Settings/nobody/myfile.txt''"
  "NormalizeAndAnonymizePath ([bslash, bslash] @ ''MYSHARED'' @ [bslash] @ ''dir'' @ [bslash] @ ''dir'' @ [bslash] @ ''myfile.txt'') = ''/nobody/dir/dir/myfile.txt''"
  "NormalizeAndAnonymizePath ''/nobody/dir/dir/myfile.txt'' = ''/nobody/dir/dir/myfile.txt''"
  "NormalizeAndAnonymizePath ([bslash] @ ''NOTSHARED'' @ [bslash] @ ''dir'' @ [bslash] @ ''dir'' @ [bslash] @ ''myfile.txt'') = ''/NOTSHARED/dir/dir/myfile.txt''"
  "NormalizeAndAnonymizePath ''/NOTSHARED/dir/dir/myfile.txt'' = ''/NOTSHARED/dir/dir/myfile.txt''"
  "NormalizeAndAnonymizePath (''C:'' @ [bslash] @ ''Users'' @ [bslash] @ ''myname'' @ [bslash] @ ''dir'' @ [bslash] @ ''myfile.txt'') = ''/C/Users/nobody/dir/myfile.txt''"
  "NormalizeAndAnonymizePath ''/C/Users/nobody/dir/myfile.txt'' = ''/C/Users/nobody/dir/myfile.txt''"
  "NormalizeAndAnonymizePath (''D:'' @ [bslash] @ ''Documents and Settings'' @ [bslash] @ ''myname'' @ [bslash] @ ''dir'' @ [bslash] @ ''myfile.txt'') = ''/D/Documents and Settings/nobody/dir/myfile.txt''"
  "NormalizeAndAnonymizePath ''/D/Documents and Settings/nobody/dir/myfile.txt'' = ''/D/Documents and Settings/nobody/dir/myfile.txt''"
  "NormalizeAndAnonymizePath (''C:'' @ [bslash] @ ''uSers'' @ [bslash] @ ''myname'' @ [bslash] @ ''dir'' @ [bslash] @ ''myfile.txt'') = ''/C/uSers/nobody/dir/myfile.txt''"
  "NormalizeAndAnonymizePath ''/C/uSers/nobody/dir/myfile.txt'' = ''/C/uSers/nobody/dir/myfile.txt''"
  "NormalizeAndAnonymizePath (''D:'' @ [bslash] @ ''doCUMENts aND Settings'' @ [bslash] @ ''myname'' @ [bslash] @ ''dir'' @ [bslash] @ ''myfile.txt'') = ''/D/doCUMENts aND Settings/nobody/dir/myfile.txt''"
  "NormalizeAndAnonymizePath ''/D/doCUMENts aND Settings/nobody/dir/myfile.txt'' = ''/D/doCUMENts aND Settings/nobody/dir/myfile.txt''"
  "NormalizeAndAnonymizePath (''//etc/hosts'') = ''/etc/hosts''"
  "NormalizeAndAnonymizePath ''/etc/hosts'' = ''/etc/hosts''"
  by code_simp+



text \<open>
  Claim C9. The path \<open>//etc/hosts\<close> normalises to \<open>/etc/hosts\<close>, whatever the host
  operating system. On a host other than Windows it does; on Windows the host's
  cleaning turns the two leading slashes into two backslashes, the path is taken
  for a share, and the result is \<open>/nobody/hosts\<close>. The test skips this entry on
  Windows and its comment marks the behaviour as one to be fixed.
\<close>

theorem normalize_etc_hosts_on_host:
  "NormalizeAndAnonymizePath_on Linux ''//etc/hosts'' = ''/etc/hosts''
   \<and> NormalizeAndAnonymizePath_on Windows ''//etc/hosts'' = ''/nobody/hosts''"
  by code_simp

text \<open>
  Claim C2. Normalising twice gives the same as normalising once. This fails at
  \<open>C:\..\D:\x\<close>: the drive prefix \<open>C:\<close> is rewritten before the cleaning resolves
  \<open>..\<close>, so the first pass leaves a path that begins with the drive prefix \<open>/D:/\<close>,
  which the second pass rewrites.
\<close>

theorem normalize_twice_differs:
  "NormalizeAndAnonymizePath
     (NormalizeAndAnonymizePath (''C:'' @ [bslash] @ ''..'' @ [bslash] @ ''D:'' @ [bslash] @ ''x''))
   \<noteq> NormalizeAndAnonymizePath (''C:'' @ [bslash] @ ''..'' @ [bslash] @ ''D:'' @ [bslash] @ ''x'')"
  by code_simp

section \<open>Properties of sealed filesystems\<close>







text \<open>
  Sealing is what closes the base: before it, a path that only the base has is
  read from the base and enters the cache; after it, the same read fails.
\<close>

lemma read_before_and_after_sealing:
  assumes "map_of cache p = None" and "map_of base p = Some b"
  shows "vfs_read (Writable base cache observed) p
           = ((Some b, None), Writable base (AList.update p b cache) (List.insert p observed))"
    and "vfs_read (sealOnlyCached (Writable base cache observed)) p
           = ((None, Some ErrPathNeverRequestedBefore), SealedCached cache observed)"
  using assms by simp_all


lemma sealing_arc_written:
  "Write sealing_arc
     = Inr [(''file/correct'', ''test''), (''metadata.json'', archive_json (written_metadata sealing_arc))]"
  by code_simp



section \<open>Properties of the archive reader and writer\<close>



text \<open>Containment of a string, and the encoding of strings that need no escape.\<close>

lemma starts_with_iff: "starts_with s p \<longleftrightarrow> (\<exists>b. s = p @ b)"
  by (induction s p rule: starts_with.induct) auto

lemma contains_str_iff: "contains_str s p \<longleftrightarrow> (\<exists>a b. s = a @ p @ b)"
proof (induction s)
  case Nil
  then show ?case by auto
next
  case (Cons c s)
  show ?case
  proof
    assume "contains_str (c # s) p"
    then consider "starts_with (c # s) p" | "contains_str s p" by auto
    then show "\<exists>a b. c # s = a @ p @ b"
    proof cases
      case 1
      then obtain b where "c # s = p @ b" using starts_with_iff by blast
      then have "c # s = [] @ p @ b" by simp
      then show ?thesis by blast
    next
      case 2
      with Cons.IH obtain a b where "s = a @ p @ b" by blast
      then have "c # s = (c # a) @ p @ b" by simp
      then show ?thesis by blast
    qed
  next
    assume "\<exists>a b. c # s = a @ p @ b"
    then obtain a b where ab: "c # s = a @ p @ b" by blast
    show "contains_str (c # s) p"
    proof (cases a)
      case Nil
      with ab have "starts_with (c # s) p" using starts_with_iff by auto
      then show ?thesis by simp
    next
      case (Cons x a')
      with ab have "s = a' @ p @ b" by simp
      with Cons.IH have "contains_str s p" by blast
      then show ?thesis by simp
    qed
  qed
qed

lemma json_plain_escape: "json_plain c \<Longrightarrow> json_escape_char c = [c]"
  by (auto simp: json_plain_def json_escape_char_def)

lemma json_string_plain: "\<forall>c \<in> set s. json_plain c \<Longrightarrow> json_string s = dquote # s @ [dquote]"
proof -
  assume "\<forall>c \<in> set s. json_plain c"
  then have "concat (map json_escape_char s) = s"
    by (induction s) (auto simp: json_plain_escape)
  then show ?thesis by (simp add: json_string_def)
qed

lemma archive_json_filename:
  "\<exists>a b. archive_json m = a @ json_string (Filename m) @ b"
  unfolding archive_json_def json_field_def
  by (metis append.assoc)




text \<open>
  Claim C8, as stated: for any file name that contains \<open><\<close>, the serialised
  metadata contains the file name as it is. A file name with \<open><\<close> followed by a
  double quote is not contained: the quote is written with a backslash before it.
\<close>

theorem json_escapes_quote:
  "CHR ''<'' \<in> set (Filename (escape_arc (''<'' @ [dquote])))
   \<and> \<not> contains_str (archive_json (escape_arc (''<'' @ [dquote]))) (Filename (escape_arc (''<'' @ [dquote])))"
  by code_simp

text \<open>
  Claim C8, amended. For any file name made of characters that JSON leaves as
  they are (no double quote, no backslash, no control character), the serialised
  metadata contains the file name as it is; the characters \<open><\<close>, \<open>>\<close> and \<open>&\<close> are
  among them and are not escaped.
\<close>

theorem json_keeps_plain_filename:
  assumes "\<forall>c \<in> set (Filename a). json_plain c"
  shows "contains_str (archive_json a) (Filename a)
       \<and> json_escape_char (CHR ''<'') = ''<'' \<and> json_escape_char (CHR ''>'') = ''>''
       \<and> json_escape_char (CHR ''&'') = ''&''"
proof -
  obtain x y where "archive_json a = x @ json_string (Filename a) @ y"
    using archive_json_filename by blast
  then have "archive_json a = (x @ [dquote]) @ Filename a @ ([dquote] @ y)"
    using json_string_plain[OF assms] by simp
  then have 1: "contains_str (archive_json a) (Filename a)"
    unfolding contains_str_iff by blast
  have 2: "json_escape_char (CHR ''<'') = ''<''" "json_escape_char (CHR ''>'') = ''>''"
    "json_escape_char (CHR ''&'') = ''&''"
    by (simp_all add: json_escape_char_def dquote_def bslash_def)
  from 1 2 show ?thesis by simp
qed

theorem json_keeps_plain_filename_witness:
  "list_all json_plain (Filename (escape_arc ''test<.js''))
   \<and> contains_str (archive_json (escape_arc ''test<.js'')) ''test<.js''"
proof -
  have h: "\<forall>c \<in> set (Filename (escape_arc ''test<.js'')). json_plain c"
    by (simp add: escape_arc_def json_plain_def dquote_def bslash_def)
  from json_keeps_plain_filename[OF h] h show ?thesis
    by (simp add: escape_arc_def list_all_iff)
qed

section \<open>Writing and reading back\<close>


















section \<open>Normalisation of clean absolute paths\<close>

text \<open>
  On an absolute path of plain segments that does not begin with a drive prefix,
  the normalisation only anonymises: such a path is its own normalisation when no
  home-like parent has a segment after it, and normalising it twice is the same as
  normalising it once.
\<close>

lemma abs_path_Cons: "abs_path (u # rest) = CHR ''/'' # u @ abs_path rest"
  by (simp add: abs_path_def)

lemma abs_path_Nil: "abs_path [] = []"
  by (simp add: abs_path_def)

lemma split_slash_seg_abs:
  assumes "CHR ''/'' \<notin> set u" and "\<forall>v \<in> set rest. CHR ''/'' \<notin> set v"
  shows "split_slash (u @ abs_path rest) = u # rest"
  using assms
proof (induction rest arbitrary: u)
  case Nil
  then show ?case by (simp add: abs_path_Nil split_slash_plain)
next
  case (Cons v rest)
  have "split_slash (u @ abs_path (v # rest)) = u # split_slash (v @ abs_path rest)"
    using Cons.prems(1) by (simp add: abs_path_Cons split_slash_append)
  also have "split_slash (v @ abs_path rest) = v # rest"
    using Cons.IH[of v] Cons.prems(2) by simp
  finally show ?case .
qed

lemma split_slash_abs:
  assumes "\<forall>v \<in> set segs. CHR ''/'' \<notin> set v" and "segs \<noteq> []"
  shows "split_slash (abs_path segs) = [] # segs"
proof -
  from assms(2) obtain u rest where s: "segs = u # rest" by (cases segs) auto
  have "split_slash (abs_path segs) = [] # split_slash (u @ abs_path rest)"
    by (simp add: s abs_path_Cons)
  also have "split_slash (u @ abs_path rest) = u # rest"
    using split_slash_seg_abs[of u rest] assms(1) s by simp
  finally show ?thesis by (simp add: s)
qed

lemma resolve_dots_plain:
  assumes "\<forall>u \<in> set segs. u \<noteq> [] \<and> u \<noteq> ''.'' \<and> u \<noteq> ''..''"
  shows "resolve_dots r acc segs = rev acc @ segs"
  using assms by (induction segs arbitrary: acc) auto

lemma join_abs: "segs \<noteq> [] \<Longrightarrow> CHR ''/'' # join_slash segs = abs_path segs"
  by (induction segs rule: join_slash.induct) (auto simp: abs_path_def)

lemma not_letter_slash: "\<not> is_letter (CHR ''/'')"
  by (simp add: is_letter_def upper_letters_def lower_letters_def)

lemma drive_rewrite_abs:
  assumes "u \<noteq> []" and "CHR '':'' \<notin> set u"
  shows "drive_rewrite (abs_path (u # rest)) = abs_path (u # rest)"
proof -
  obtain b u' where u: "u = b # u'" using assms(1) by (cases u) auto
  show ?thesis
  proof (cases u')
    case Nil
    show ?thesis
    proof (cases rest)
      case Nil
      with \<open>u' = []\<close> u show ?thesis by (simp add: abs_path_def)
    next
      case (Cons v rest')
      with \<open>u' = []\<close> u show ?thesis
        by (cases "v @ abs_path rest'") (auto simp: abs_path_Cons abs_path_Nil not_letter_slash)
    qed
  next
    case (Cons c u'')
    with assms(2) u have "c \<noteq> CHR '':''" by auto
    with Cons u show ?thesis
      by (cases "u'' @ abs_path rest") (auto simp: abs_path_Cons not_letter_slash)
  qed
qed

lemma anonymize_segs_root:
  "anonymize_segs False ([] # segs) = [] # anonymize_segs False segs"
  by (cases segs) (auto simp: is_parent_def home_like_def)

lemma anonymize_segs_nonempty: "segs \<noteq> [] \<Longrightarrow> anonymize_segs unc segs \<noteq> []"
  by (induction unc segs rule: anonymize_segs.induct) auto

lemma join_slash_root: "segs \<noteq> [] \<Longrightarrow> join_slash ([] # segs) = CHR ''/'' # join_slash segs"
  by (cases segs) auto

lemma all_plain_facts:
  assumes "\<forall>u \<in> set segs. plain_segment u"
  shows "\<forall>u \<in> set segs. CHR ''/'' \<notin> set u"
    and "\<forall>u \<in> set segs. u \<noteq> [] \<and> u \<noteq> ''.'' \<and> u \<noteq> ''..''"
    and "bslash \<notin> set (abs_path segs)"
  using assms by (auto simp: plain_segment_def abs_path_def bslash_def)

lemma normalize_abs_path:
  assumes pl: "\<forall>u \<in> set segs. plain_segment u" and ne: "segs \<noteq> []"
    and nc: "CHR '':'' \<notin> set (hd segs)"
  shows "NormalizeAndAnonymizePath (abs_path segs) = abs_path (anonymize_segs False segs)"
proof -
  let ?s = "abs_path segs"
  from ne obtain u rest where sg: "segs = u # rest" by (cases segs) auto
  have u: "u \<noteq> []" using pl sg by (simp add: plain_segment_def)
  have hd: "?s = CHR ''/'' # u @ abs_path rest" by (simp add: sg abs_path_Cons)
  have nu: "\<not> begins_unc ?s" by (simp add: hd begins_unc_def bslash_def)
  have s1: "unc_collapse ?s = ?s" using nu by (simp add: unc_collapse_def)
  have s2: "drive_rewrite ?s = ?s" using drive_rewrite_abs[OF u, of rest] nc sg by simp
  have s3: "backslash_to_slash ?s = ?s"
    by (rule backslash_to_slash_id[OF all_plain_facts(3)[OF pl]])
  have sp: "split_slash ?s = [] # segs" by (rule split_slash_abs[OF all_plain_facts(1)[OF pl] ne])
  have rd: "resolve_dots True [] ([] # segs) = segs"
    using resolve_dots_plain[OF all_plain_facts(2)[OF pl], of True "[]"] by simp
  have ro: "is_rooted ?s" by (simp add: hd is_rooted_def)
  have s4: "lexical_clean ?s = ?s"
    unfolding lexical_clean_def sp rd using ro join_abs[OF ne] by simp
  have s5: "anonymize False ?s = abs_path (anonymize_segs False segs)"
    unfolding anonymize_def sp anonymize_segs_root
    using join_slash_root[OF anonymize_segs_nonempty[OF ne]] join_abs[OF anonymize_segs_nonempty[OF ne]]
    by simp
  have ro': "is_rooted (abs_path (anonymize_segs False segs))"
    using anonymize_segs_nonempty[OF ne, of False]
    by (cases "anonymize_segs False segs") (auto simp: abs_path_Cons is_rooted_def)
  show ?thesis
    unfolding NormalizeAndAnonymizePath_def s1 s2 s3 s4 using nu s5 ro'
    by (simp add: ensure_root_def)
qed

lemma anonymize_segs_hd: "\<exists>rest'. anonymize_segs unc (u # rest) = u # rest'"
  by (cases rest) auto




lemma plain_home: "plain_segment ''home''" "home_like ''home''" "plain_segment ''Users''" "home_like ''Users''"
  "plain_segment ''myname''" "plain_segment ''Administrator''" "plain_segment ''nobody''" "plain_segment ''C''"
  by code_simp+




lemma anonymize_segs_idem:
  "anonymize_segs unc (anonymize_segs unc segs) = anonymize_segs unc segs"
proof (induction unc segs rule: anonymize_segs.induct)
  case (1 unc p u rest)
  show ?case
  proof (cases "is_parent unc p \<and> u \<noteq> []")
    case True
    then show ?thesis by simp
  next
    case False
    obtain rest' where r: "anonymize_segs unc (u # rest) = u # rest'"
      using anonymize_segs_hd by blast
    with False 1 show ?thesis by auto
  qed
qed simp_all

lemma anonymize_segs_plain:
  assumes "\<forall>u \<in> set segs. plain_segment u"
  shows "\<forall>u \<in> set (anonymize_segs unc segs). plain_segment u"
  using assms plain_home(7) by (induction unc segs rule: anonymize_segs.induct) auto

lemma normalize_idempotent_abs:
  assumes pl: "\<forall>u \<in> set segs. plain_segment u" and ne: "segs \<noteq> []"
    and nc: "CHR '':'' \<notin> set (hd segs)"
  shows "NormalizeAndAnonymizePath (NormalizeAndAnonymizePath (abs_path segs))
           = NormalizeAndAnonymizePath (abs_path segs)"
proof -
  from ne obtain u rest where sg: "segs = u # rest" by (cases segs) auto
  obtain rest' where r: "anonymize_segs False segs = u # rest'"
    using anonymize_segs_hd sg by blast
  have nc': "CHR '':'' \<notin> set (hd (anonymize_segs False segs))" using nc sg r by simp
  have ne': "anonymize_segs False segs \<noteq> []" using r by simp
  show ?thesis
    using normalize_abs_path[OF pl ne nc]
      normalize_abs_path[OF anonymize_segs_plain[OF pl] ne' nc']
    by (simp add: anonymize_segs_idem)
qed

section \<open>The round trip of an archive\<close>





















end
